theory Spec2Isabelle
  imports Complex_Main
begin

section \<open>Price map: colour scale, robust range and hourly index (EuropePriceMap.tsx)\<close>

text \<open>
  Prices are JavaScript numbers. They are modelled as real numbers: the range computation
  only compares and selects prices, and the hue arithmetic is read over the reals.
  A displayable colour is one of the two string forms the source builds: a hex literal
  or \<^verbatim>\<open>hsl(h, s%, l%)\<close> with its three components.
\<close>

datatype css_color = Hex string | Hsl real nat nat

text \<open>\<^verbatim>\<open>calculateDynamicColor(price, min, max)\<close>, lines 48-63.\<close>

definition calculateDynamicColor :: "real \<Rightarrow> real \<Rightarrow> real \<Rightarrow> css_color" where
  "calculateDynamicColor price mn mx =
     (if price < 0 then Hex ''#3b82f6''
      else if mx = mn then Hsl 80 85 50
      else let safePrice = min (max price mn) mx;
               ratio = (safePrice - mn) / (mx - mn);
               hue = 140 - ratio * 140
           in Hsl hue 80 45)"

text \<open>
  One entry of \<^verbatim>\<open>HourlyPrices\<close>: the hour and the zone/price pairs of
  \<^verbatim>\<open>Record<string, number | null>\<close> in the order \<^verbatim>\<open>Object.entries\<close> yields them;
  \<open>None\<close> is \<^verbatim>\<open>null\<close>.
\<close>

record snapshot =
  hour :: int
  prices :: "(string \<times> real option) list"

record price_range =
  minPrice :: real
  maxPrice :: real

text \<open>The check made when a response arrives (lines 115-117), stored as \<^verbatim>\<open>hasData\<close>.\<close>

definition hasValidPrices :: "snapshot list \<Rightarrow> bool" where
  "hasValidPrices hours =
     list_ex (\<lambda>h. list_ex (\<lambda>p. p \<noteq> None) (map snd (prices h))) hours"

text \<open>Lines 157-167: every price that is not null and not negative, hour by hour.\<close>

definition allPrices :: "snapshot list \<Rightarrow> real list" where
  "allPrices hours =
     concat (map (\<lambda>hourData. [p. Some p \<leftarrow> map snd (prices hourData), 0 \<le> p]) hours)"

text \<open>
  Lines 169-182. The indices are \<^verbatim>\<open>Math.floor(n * 0.05)\<close> and \<^verbatim>\<open>Math.floor(n * 0.95)\<close>;
  for an array length \<open>n\<close> the double products floor to \<open>n * 5 div 100\<close> and
  \<open>n * 95 div 100\<close>, which is what the model computes on natural numbers.
\<close>

definition computeRobustRange :: "real list \<Rightarrow> price_range" where
  "computeRobustRange vs =
     (if length vs = 0 then \<lparr>minPrice = 0, maxPrice = 100\<rparr>
      else let sorted_vs = sort vs;
               p5Index = length sorted_vs * 5 div 100;
               p95Index = length sorted_vs * 95 div 100
           in \<lparr>minPrice = sorted_vs ! p5Index, maxPrice = sorted_vs ! p95Index\<rparr>)"

text \<open>
  The \<^verbatim>\<open>useMemo\<close> of lines 153-183; \<^verbatim>\<open>apiHours\<close> is \<open>None\<close> while no response is
  stored, \<^verbatim>\<open>hasData\<close> is the stored flag.
\<close>

definition robustRange :: "snapshot list option \<Rightarrow> bool \<Rightarrow> price_range" where
  "robustRange apiHours hasData =
     (case apiHours of
        None \<Rightarrow> \<lparr>minPrice = 0, maxPrice = 100\<rparr>
      | Some hours \<Rightarrow>
          if \<not> hasData then \<lparr>minPrice = 0, maxPrice = 100\<rparr>
          else computeRobustRange (allPrices hours))"

text \<open>The colour of a price under a range, as \<^verbatim>\<open>getStyleForFeature\<close> calls it (line 207).\<close>

definition colorFor :: "real \<Rightarrow> price_range \<Rightarrow> css_color" where
  "colorFor price r = calculateDynamicColor price (minPrice r) (maxPrice r)"

subsection \<open>Zone resolution and the prices of one hour\<close>

definition ZONE_TO_ISO3 :: "(string \<times> string) list" where
  "ZONE_TO_ISO3 =
     [(''CH'', ''CHE''), (''DE'', ''DEU''), (''FR'', ''FRA''), (''AT'', ''AUT''),
      (''IT'', ''ITA''), (''ES'', ''ESP''), (''NL'', ''NLD''), (''BE'', ''BEL''),
      (''PL'', ''POL''), (''FI'', ''FIN''), (''PT'', ''PRT''),
      (''UK'', ''GBR''), (''GB'', ''GBR''),
      (''NO2'', ''NOR''), (''NO'', ''NOR''),
      (''SE3'', ''SWE''), (''SE'', ''SWE''),
      (''DK1'', ''DNK''), (''DK'', ''DNK'')]"

text \<open>
  The lookup of line 192 upper-cases the zone code with JavaScript's \<^verbatim>\<open>toUpperCase\<close>,
  which follows Unicode. The model takes that function as a parameter of the lookup and
  fixes what it does where the properties below need it: on a string of ASCII
  characters it moves the letters a-z to A-Z and leaves the rest, which \<open>upperAscii\<close>
  computes. What it does to other characters (it sends the ligature U+FB01 to \<^verbatim>\<open>FI\<close>,
  for one) stays with the parameter. The lookup \<^verbatim>\<open>ZONE_TO_ISO3[...]\<close> finds an own key
  of the table or nothing: the names an object literal inherits all contain lower-case
  letters.
\<close>

definition upper_char :: "char \<Rightarrow> char" where
  "upper_char c =
     (case map_of (zip ''abcdefghijklmnopqrstuvwxyz'' ''ABCDEFGHIJKLMNOPQRSTUVWXYZ'') c of
        Some u \<Rightarrow> u
      | None \<Rightarrow> c)"

definition upperAscii :: "string \<Rightarrow> string" where
  "upperAscii s = map upper_char s"

text \<open>A string of ASCII characters: the top bit of every character is clear.\<close>

definition ascii :: "string \<Rightarrow> bool" where
  "ascii s = list_all (\<lambda>c. \<not> digit7 c) s"

definition resolve :: "(string \<Rightarrow> string) \<Rightarrow> string \<Rightarrow> string option" where
  "resolve toUpperCase zoneCode = map_of ZONE_TO_ISO3 (toUpperCase zoneCode)"

text \<open>One turn of the loop of lines 190-194 on the map built so far.\<close>

definition setZone ::
  "(string \<Rightarrow> string) \<Rightarrow> string \<times> real option \<Rightarrow> (string \<rightharpoonup> real) \<Rightarrow> (string \<rightharpoonup> real)" where
  "setZone toUpperCase entry m =
     (case snd entry of
        None \<Rightarrow> m
      | Some v \<Rightarrow>
          (case resolve toUpperCase (fst entry) of None \<Rightarrow> m | Some iso3 \<Rightarrow> m(iso3 \<mapsto> v)))"

text \<open>The \<^verbatim>\<open>useMemo\<close> of lines 185-196.\<close>

definition priceMap ::
  "(string \<Rightarrow> string) \<Rightarrow> snapshot list option \<Rightarrow> int \<Rightarrow> (string \<rightharpoonup> real)" where
  "priceMap toUpperCase apiHours selectedHour =
     (case apiHours of
        None \<Rightarrow> Map.empty
      | Some hours \<Rightarrow>
          (case find (\<lambda>h. hour h = selectedHour) hours of
             None \<Rightarrow> Map.empty
           | Some hourObj \<Rightarrow> fold (setZone toUpperCase) (prices hourObj) Map.empty))"

section \<open>Chart payloads of the chat agent (ChatInterface.tsx, renderChart)\<close>

text \<open>
  The payload is \<^verbatim>\<open>any\<close>: a JavaScript value built from JSON data, or absent. Objects keep
  their properties in order; a property that is missing reads as \<^verbatim>\<open>undefined\<close>.
\<close>

datatype jsval =
    JUndefined
  | JNull
  | JBool bool
  | JNum real
  | JStr string
  | JArr "jsval list"
  | JObj "(string \<times> jsval) list"

text \<open>Truthiness, as \<^verbatim>\<open>!v\<close>, \<^verbatim>\<open>&&\<close> and \<^verbatim>\<open>||\<close> test it.\<close>

fun truthy :: "jsval \<Rightarrow> bool" where
  "truthy JUndefined = False"
| "truthy JNull = False"
| "truthy (JBool b) = b"
| "truthy (JNum n) = (n \<noteq> 0)"
| "truthy (JStr s) = (s \<noteq> [])"
| "truthy (JArr xs) = True"
| "truthy (JObj fs) = True"

text \<open>
  Reading a property \<^verbatim>\<open>v.k\<close> for the property names \<^verbatim>\<open>renderChart\<close> uses: an object
  yields the stored value, every other value that can be read yields \<^verbatim>\<open>undefined\<close>.
  JavaScript throws a TypeError when \<open>v\<close> is \<^verbatim>\<open>null\<close> or \<^verbatim>\<open>undefined\<close>; every
  read in the source is guarded by a truthiness test of its receiver except the one of
  line 166, whose failure \<open>renderChart\<close> below makes explicit.
\<close>

fun field :: "jsval \<Rightarrow> string \<Rightarrow> jsval" where
  "field (JObj fs) k = (case map_of fs k of Some v \<Rightarrow> v | None \<Rightarrow> JUndefined)"
| "field v k = JUndefined"

text \<open>
  The assignment \<^verbatim>\<open>v.k = w\<close> on an object: an existing property keeps its place, a new
  one is added last. The source assigns only to receivers that have a truthy property,
  which are objects.
\<close>

fun assign_entry :: "string \<Rightarrow> jsval \<Rightarrow> (string \<times> jsval) list \<Rightarrow> (string \<times> jsval) list" where
  "assign_entry k w [] = [(k, w)]"
| "assign_entry k w (e # fs) = (if fst e = k then (k, w) # fs else e # assign_entry k w fs)"

fun assign :: "jsval \<Rightarrow> string \<Rightarrow> jsval \<Rightarrow> jsval" where
  "assign (JObj fs) k w = JObj (assign_entry k w fs)"
| "assign v k w = v"

fun isArray :: "jsval \<Rightarrow> bool" where
  "isArray (JArr xs) = True"
| "isArray v = False"

text \<open>\<^verbatim>\<open>a || b\<close> as a value.\<close>

definition js_or :: "jsval \<Rightarrow> jsval \<Rightarrow> jsval" where
  "js_or a b = (if truthy a then a else b)"

text \<open>
  Lines 157-163. \<^verbatim>\<open>JSON.parse\<close> is a parameter: \<open>None\<close> is the SyntaxError, which the
  source catches and logs, keeping the string as the payload.
\<close>

definition decode :: "(string \<Rightarrow> jsval option) \<Rightarrow> jsval \<Rightarrow> jsval" where
  "decode parse rawPayload =
     (case rawPayload of
        JStr s \<Rightarrow> (case parse s of Some v \<Rightarrow> v | None \<Rightarrow> rawPayload)
      | _ \<Rightarrow> rawPayload)"

text \<open>Lines 166-168.\<close>

definition unwrap :: "jsval \<Rightarrow> jsval" where
  "unwrap chartPayload =
     (if truthy (field chartPayload ''chart_data'') then field chartPayload ''chart_data''
      else chartPayload)"

text \<open>Caso D, lines 173-188.\<close>

definition casoD :: "jsval \<Rightarrow> jsval" where
  "casoD chartPayload =
     (let dat = field chartPayload ''data'' in
      if truthy dat \<and> isArray (field dat ''x'') \<and> isArray (field dat ''y'') then
        (let xData = field dat ''x'';
             yData = field dat ''y'';
             label = js_or (field dat ''ylabel'') (js_or (field dat ''title'') (JStr ''Value''))
         in assign chartPayload ''data''
              (JObj [(''labels'', xData),
                     (''datasets'', JArr [JObj [(''label'', label),
                                                (''data'', yData),
                                                (''borderColor'', JStr ''rgba(54, 162, 235, 1)''),
                                                (''backgroundColor'', JStr ''rgba(54, 162, 235, 0.2)''),
                                                (''borderWidth'', JNum 2)]])]))
      else chartPayload)"

text \<open>Caso A, lines 191-196.\<close>

definition casoA :: "jsval \<Rightarrow> jsval" where
  "casoA chartPayload =
     (if \<not> truthy (field chartPayload ''data'') \<and> truthy (field chartPayload ''datasets'') then
        assign chartPayload ''data''
          (JObj [(''labels'', js_or (field chartPayload ''labels'') (JArr [])),
                 (''datasets'', field chartPayload ''datasets'')])
      else chartPayload)"

text \<open>
  Caso B, lines 199-203. The source assigns into the object held by \<^verbatim>\<open>data\<close>; the model
  stores the updated object back under \<^verbatim>\<open>data\<close>.
\<close>

definition casoB :: "jsval \<Rightarrow> jsval" where
  "casoB chartPayload =
     (let dat = field chartPayload ''data'' in
      if truthy dat \<and> truthy (field dat ''dataset'') \<and> \<not> truthy (field dat ''datasets'') then
        assign chartPayload ''data''
          (assign dat ''datasets''
             (if isArray (field dat ''dataset'') then field dat ''dataset''
              else JArr [field dat ''dataset'']))
      else chartPayload)"

text \<open>Caso C, lines 206-211.\<close>

definition casoC :: "jsval \<Rightarrow> jsval" where
  "casoC chartPayload =
     (if \<not> truthy (field chartPayload ''data'') \<and> truthy (field chartPayload ''dataset'') then
        assign chartPayload ''data''
          (JObj [(''labels'', js_or (field chartPayload ''labels'') (JArr [])),
                 (''datasets'',
                    if isArray (field chartPayload ''dataset'') then field chartPayload ''dataset''
                    else JArr [field chartPayload ''dataset''])])
      else chartPayload)"

text \<open>The four rules in the order of the source.\<close>

definition adaptData :: "jsval \<Rightarrow> jsval" where
  "adaptData chartPayload = casoC (casoB (casoA (casoD chartPayload)))"

text \<open>The test of line 214, negated: what lets a payload through to the chart.\<close>

definition hasDatasets :: "jsval \<Rightarrow> bool" where
  "hasDatasets chartPayload =
     (truthy (field chartPayload ''data'') \<and>
      truthy (field (field chartPayload ''data'') ''datasets''))"

text \<open>
  The rules change the payload object in place, and \<^verbatim>\<open>rawPayload\<close> is the same object
  unless it was a string. What \<^verbatim>\<open>JSON.stringify(rawPayload)\<close> shows at line 220 is
  therefore the raw payload as the rules left it: the adapted payload itself, or the
  raw payload with the adapted object under \<^verbatim>\<open>chart_data\<close> after an unwrap.
\<close>

definition rawAfter :: "jsval \<Rightarrow> jsval \<Rightarrow> jsval" where
  "rawAfter rawPayload chartPayload =
     (case rawPayload of
        JStr s \<Rightarrow> rawPayload
      | _ \<Rightarrow> if truthy (field rawPayload ''chart_data'')
             then assign rawPayload ''chart_data'' chartPayload
             else chartPayload)"

text \<open>
  \<^verbatim>\<open>toLowerCase\<close> on the ASCII letters. The source only compares its result with
  \<^verbatim>\<open>'line'\<close> and \<^verbatim>\<open>'bar'\<close>, and no character outside ASCII lower-cases to one of
  their letters.
\<close>

definition lower_char :: "char \<Rightarrow> char" where
  "lower_char c =
     (case map_of (zip ''ABCDEFGHIJKLMNOPQRSTUVWXYZ'' ''abcdefghijklmnopqrstuvwxyz'') c of
        Some l \<Rightarrow> l
      | None \<Rightarrow> c)"

definition toLowerCase :: "string \<Rightarrow> string" where
  "toLowerCase s = map lower_char s"

datatype fault = TypeError

text \<open>
  Line 245: \<^verbatim>\<open>type ? type.toLowerCase() : 'line'\<close>. A truthy value that is not a string
  has no \<^verbatim>\<open>toLowerCase\<close>: the call throws.
\<close>

definition chartType :: "jsval \<Rightarrow> fault + string" where
  "chartType type =
     (if truthy type then (case type of JStr s \<Rightarrow> Inr (toLowerCase s) | _ \<Rightarrow> Inl TypeError)
      else Inr ''line'')"

text \<open>
  What \<^verbatim>\<open>renderChart\<close> returns: nothing (\<^verbatim>\<open>null\<close>), the block "Chart data unavailable
  (Structure mismatch)." with the debug data, a line or bar chart over \<^verbatim>\<open>data\<close> and the
  payload's \<^verbatim>\<open>options\<close>, or the message "Error rendering visualization.".
\<close>

datatype chart_kind = LineChart | BarChart

datatype rendered =
    Nothing
  | StructureMismatch jsval
  | Chart chart_kind jsval jsval
  | RenderError

text \<open>
  \<^verbatim>\<open>renderChart\<close>, lines 151-257. \<open>Inl TypeError\<close> is the exception that leaves the
  function: the read of \<^verbatim>\<open>chart_data\<close> at line 166 is outside every \<^verbatim>\<open>try\<close>. The
  exception of line 245 is caught at line 254.
\<close>

definition renderChart :: "(string \<Rightarrow> jsval option) \<Rightarrow> jsval \<Rightarrow> fault + rendered" where
  "renderChart parse rawPayload =
     (if \<not> truthy rawPayload then Inr Nothing
      else let decoded = decode parse rawPayload in
        if decoded = JNull \<or> decoded = JUndefined then Inl TypeError
        else let chartPayload = adaptData (unwrap decoded) in
          if \<not> truthy (field chartPayload ''data'') \<or>
             \<not> truthy (field (field chartPayload ''data'') ''datasets'')
          then Inr (StructureMismatch (rawAfter rawPayload chartPayload))
          else (case chartType (field chartPayload ''type'') of
                  Inl e \<Rightarrow> Inr RenderError
                | Inr t \<Rightarrow>
                    Inr (Chart (if t = ''bar'' then BarChart else LineChart)
                           (field chartPayload ''data'') (field chartPayload ''options''))))"

text \<open>
  A fragment of \<^verbatim>\<open>JSON.parse\<close> to instantiate the parameter in examples: it decodes the
  texts listed as \<^verbatim>\<open>JSON.parse\<close> does and rejects every other string.
\<close>

definition parseLiteral :: "string \<Rightarrow> jsval option" where
  "parseLiteral s =
     map_of [(''null'', JNull), (''true'', JBool True), (''false'', JBool False),
             (''{}'', JObj []), (''[]'', JArr [])] s"

text \<open>
  The shape of \<^verbatim>\<open>interface ChartPayload\<close> (lines 40-44) with chart.js data: the
  properties \<^verbatim>\<open>type\<close>, \<^verbatim>\<open>data\<close> and optionally \<^verbatim>\<open>options\<close> and no other; the type
  is \<^verbatim>\<open>'line'\<close> or \<^verbatim>\<open>'bar'\<close>; the data object holds \<^verbatim>\<open>labels\<close> and a non-empty
  \<^verbatim>\<open>datasets\<close> array and no other property; each dataset has a name under \<^verbatim>\<open>label\<close>
  and as many values under \<^verbatim>\<open>data\<close> as there are labels.
\<close>

definition canonicalSeries :: "nat \<Rightarrow> jsval \<Rightarrow> bool" where
  "canonicalSeries n s =
     (case (field s ''label'', field s ''data'') of
        (JStr name, JArr vs) \<Rightarrow> length vs = n
      | _ \<Rightarrow> False)"

definition canonical :: "jsval \<Rightarrow> bool" where
  "canonical p =
     (case p of
        JObj fs \<Rightarrow>
          set (map fst fs) \<subseteq> {''type'', ''data'', ''options''} \<and>
          (field p ''type'' = JStr ''line'' \<or> field p ''type'' = JStr ''bar'') \<and>
          (case field p ''data'' of
             JObj ds \<Rightarrow>
               set (map fst ds) \<subseteq> {''labels'', ''datasets''} \<and>
               (case (field (JObj ds) ''labels'', field (JObj ds) ''datasets'') of
                  (JArr ls, JArr ss) \<Rightarrow> ss \<noteq> [] \<and> list_all (canonicalSeries (length ls)) ss
                | _ \<Rightarrow> False)
           | _ \<Rightarrow> False)
      | _ \<Rightarrow> False)"

section \<open>Forecast chart: series highlighting (ForecastsChart)\<close>

record series_config =
  key :: string
  color :: string

definition seriesConfig :: "series_config list" where
  "seriesConfig =
     [\<lparr>key = ''Spot Price'', color = ''#3b82f6''\<rparr>,
      \<lparr>key = ''Consumption Forecast'', color = ''#ef4444''\<rparr>,
      \<lparr>key = ''Solar Panel Forecast'', color = ''#f59e0b''\<rparr>,
      \<lparr>key = ''Wind Forecast'', color = ''#10b981''\<rparr>]"

text \<open>The styling properties of one \<^verbatim>\<open>Line\<close> element.\<close>

record line_props =
  dataKey :: string
  stroke :: string
  strokeWidth :: nat
  strokeOpacity :: real

text \<open>The body of the \<^verbatim>\<open>seriesConfig.map\<close> callback; \<open>None\<close> is \<^verbatim>\<open>null\<close>.\<close>

definition lineProps :: "string option \<Rightarrow> series_config \<Rightarrow> line_props" where
  "lineProps highlightedSeries s =
     (let isActive = (highlightedSeries = Some (key s));
          isDimmed = (highlightedSeries \<noteq> None \<and> \<not> isActive)
      in \<lparr>dataKey = key s, stroke = color s,
          strokeWidth = (if isActive then 4 else 2),
          strokeOpacity = (if isDimmed then 15 / 100 else 1)\<rparr>)"

definition renderLines :: "string option \<Rightarrow> line_props list" where
  "renderLines highlightedSeries = map (lineProps highlightedSeries) seriesConfig"

text \<open>\<^verbatim>\<open>handleLegendClick\<close>: the next value of \<^verbatim>\<open>highlightedSeries\<close>.\<close>

definition handleLegendClick :: "string option \<Rightarrow> string \<Rightarrow> string option" where
  "handleLegendClick highlightedSeries clicked =
     (if highlightedSeries = Some clicked then None else Some clicked)"

section \<open>Properties of the price map\<close>

subsection \<open>Auxiliary facts\<close>

lemma p5Index_le_p95Index: "(n::nat) * 5 div 100 \<le> n * 95 div 100"
  by (rule div_le_mono) simp

lemma p95Index_less: "0 < (n::nat) \<Longrightarrow> n * 95 div 100 < n"
  by simp

lemma computeRobustRange_nonempty:
  assumes "vs \<noteq> []"
  shows "minPrice (computeRobustRange vs) \<le> maxPrice (computeRobustRange vs)"
    and "minPrice (computeRobustRange vs) \<in> set vs"
    and "maxPrice (computeRobustRange vs) \<in> set vs"
proof -
  let ?s = "sort vs"
  let ?n = "length ?s"
  have n: "0 < ?n" using assms by simp
  have hi: "?n * 95 div 100 < ?n" by (rule p95Index_less[OF n])
  have lo: "?n * 5 div 100 < ?n" using p5Index_le_p95Index[of ?n] hi by linarith
  have "?s ! (?n * 5 div 100) \<le> ?s ! (?n * 95 div 100)"
    using sorted_nth_mono[of ?s "?n * 5 div 100" "?n * 95 div 100"] p5Index_le_p95Index[of ?n] hi
    by simp
  then show "minPrice (computeRobustRange vs) \<le> maxPrice (computeRobustRange vs)"
    using assms by (simp add: computeRobustRange_def Let_def)
  have "?s ! (?n * 5 div 100) \<in> set ?s" using lo nth_mem by blast
  then show "minPrice (computeRobustRange vs) \<in> set vs"
    using assms by (simp add: computeRobustRange_def Let_def)
  have "?s ! (?n * 95 div 100) \<in> set ?s" using hi nth_mem by blast
  then show "maxPrice (computeRobustRange vs) \<in> set vs"
    using assms by (simp add: computeRobustRange_def Let_def)
qed

lemma allPrices_all_negative:
  assumes "\<forall>h \<in> set hours. \<forall>e \<in> set (prices h). \<forall>v. snd e = Some v \<longrightarrow> v < 0"
  shows "allPrices hours = []"
proof -
  have "[p. Some p \<leftarrow> map snd (prices h), 0 \<le> p] = []" if "h \<in> set hours" for h
  proof -
    have "\<forall>e \<in> set (prices h). \<forall>v. snd e = Some v \<longrightarrow> v < 0" using assms that by blast
    then show ?thesis
      by (induction "prices h" arbitrary: h) (auto split: option.splits)
  qed
  then show ?thesis by (simp add: allPrices_def)
qed

lemma hue_nonincreasing:
  assumes "mn < mx" "0 \<le> a" "a \<le> b"
  shows "\<exists>ha hb. calculateDynamicColor a mn mx = Hsl ha 80 45 \<and>
                 calculateDynamicColor b mn mx = Hsl hb 80 45 \<and>
                 hb \<le> ha \<and> 0 \<le> hb \<and> ha \<le> 140"
proof -
  define ra where "ra = (min (max a mn) mx - mn) / (mx - mn)"
  define rb where "rb = (min (max b mn) mx - mn) / (mx - mn)"
  have d: "0 < mx - mn" using assms by simp
  have c: "min (max a mn) mx \<le> min (max b mn) mx" using assms by auto
  have ab: "ra \<le> rb"
    unfolding ra_def rb_def using c d by (simp add: divide_right_mono)
  have b1: "rb \<le> 1" unfolding rb_def using d by simp
  have a0: "0 \<le> ra" unfolding ra_def using d assms by simp
  have ca: "calculateDynamicColor a mn mx = Hsl (140 - ra * 140) 80 45"
    unfolding ra_def using assms by (simp add: calculateDynamicColor_def Let_def)
  have cb: "calculateDynamicColor b mn mx = Hsl (140 - rb * 140) 80 45"
    unfolding rb_def using assms by (simp add: calculateDynamicColor_def Let_def)
  have "140 - rb * 140 \<le> 140 - ra * 140" using ab by simp
  moreover have "0 \<le> 140 - rb * 140" using b1 by simp
  moreover have "140 - ra * 140 \<le> 140" using a0 by simp
  ultimately show ?thesis using ca cb by blast
qed

lemma clamp_below:
  "mn < mx \<Longrightarrow> 0 \<le> p \<Longrightarrow> p \<le> mn \<Longrightarrow> calculateDynamicColor p mn mx = Hsl 140 80 45"
  by (simp add: calculateDynamicColor_def Let_def max_def min_def)

lemma clamp_above:
  assumes "mn < mx" "0 \<le> p" "mx \<le> p"
  shows "calculateDynamicColor p mn mx = Hsl 0 80 45"
proof -
  have s: "min (max p mn) mx = mx" using assms by simp
  have r: "(mx - mn) / (mx - mn) = 1" using assms by simp
  have "calculateDynamicColor p mn mx = Hsl (140 - (mx - mn) / (mx - mn) * 140) 80 45"
    using assms unfolding calculateDynamicColor_def Let_def s by auto
  then show ?thesis unfolding r by simp
qed

lemma setZone_apply:
  "setZone up e m iso3 =
     (case snd e of None \<Rightarrow> m iso3
      | Some v \<Rightarrow> if resolve up (fst e) = Some iso3 then Some v else m iso3)"
  by (auto simp: setZone_def split: option.splits)

lemma fold_setZone_last:
  "fold (setZone up) ps Map.empty iso3 = Some v \<longleftrightarrow>
     (\<exists>pre z post. ps = pre @ (z, Some v) # post \<and> resolve up z = Some iso3 \<and>
        (\<forall>e \<in> set post. snd e \<noteq> None \<longrightarrow> resolve up (fst e) \<noteq> Some iso3))"
  (is "?L ps \<longleftrightarrow> ?R ps")
proof (induction ps rule: rev_induct)
  case Nil
  show ?case by simp
next
  case (snoc e ps)
  show ?case
  proof (cases "snd e \<noteq> None \<and> resolve up (fst e) = Some iso3")
    case True
    then obtain v0 where e: "snd e = Some v0" and r: "resolve up (fst e) = Some iso3"
      by auto
    have L: "?L (ps @ [e]) \<longleftrightarrow> v = v0"
      using e r by (auto simp: setZone_apply)
    have R: "?R (ps @ [e]) \<longleftrightarrow> v = v0"
    proof
      assume "?R (ps @ [e])"
      then obtain pre z post where d: "ps @ [e] = pre @ (z, Some v) # post"
        and free: "\<forall>x \<in> set post. snd x \<noteq> None \<longrightarrow> resolve up (fst x) \<noteq> Some iso3" by blast
      show "v = v0"
      proof (cases post rule: rev_cases)
        case Nil
        with d have "e = (z, Some v)" by simp
        with e show ?thesis by simp
      next
        case (snoc post' x)
        with d have "x = e" by simp
        with snoc free True show ?thesis by simp
      qed
    next
      assume "v = v0"
      then have "ps @ [e] = ps @ (fst e, Some v) # []" using e by (cases e) simp
      then show "?R (ps @ [e])" using r by (metis empty_iff list.set(1))
    qed
    show ?thesis using L R by simp
  next
    case False
    have L: "?L (ps @ [e]) \<longleftrightarrow> ?L ps"
      using False by (auto simp: setZone_apply split: option.splits)
    have R: "?R (ps @ [e]) \<longleftrightarrow> ?R ps"
    proof
      assume "?R (ps @ [e])"
      then obtain pre z post where d: "ps @ [e] = pre @ (z, Some v) # post"
        and rz: "resolve up z = Some iso3"
        and free: "\<forall>x \<in> set post. snd x \<noteq> None \<longrightarrow> resolve up (fst x) \<noteq> Some iso3" by blast
      show "?R ps"
      proof (cases post rule: rev_cases)
        case Nil
        with d have "e = (z, Some v)" by simp
        with rz False show ?thesis by simp
      next
        case (snoc post' x)
        with d have "ps = pre @ (z, Some v) # post'" by simp
        moreover have "\<forall>x \<in> set post'. snd x \<noteq> None \<longrightarrow> resolve up (fst x) \<noteq> Some iso3"
          using free snoc by simp
        ultimately show ?thesis using rz by blast
      qed
    next
      assume "?R ps"
      then obtain pre z post where d: "ps = pre @ (z, Some v) # post"
        and rz: "resolve up z = Some iso3"
        and free: "\<forall>x \<in> set post. snd x \<noteq> None \<longrightarrow> resolve up (fst x) \<noteq> Some iso3" by blast
      have "ps @ [e] = pre @ (z, Some v) # (post @ [e])" using d by simp
      moreover have "\<forall>x \<in> set (post @ [e]). snd x \<noteq> None \<longrightarrow> resolve up (fst x) \<noteq> Some iso3"
        using free False by auto
      ultimately show "?R (ps @ [e])" using rz by blast
    qed
    show ?thesis using L R snoc.IH by simp
  qed
qed

lemma upper_lower_char: "upper_char (lower_char c) = upper_char c"
  by (simp add: upper_char_def lower_char_def)

lemma upperAscii_toLowerCase: "upperAscii (toLowerCase s) = upperAscii s"
  by (simp add: upperAscii_def toLowerCase_def upper_lower_char)

lemma resolve_ascii:
  assumes "\<And>s. ascii s \<Longrightarrow> up s = upperAscii s" and "ascii z"
  shows "resolve up z = map_of ZONE_TO_ISO3 (upperAscii z)"
  using assms by (simp add: resolve_def)

lemma allPrices_nonneg: "x \<in> set (allPrices hours) \<Longrightarrow> 0 \<le> x"
  by (auto simp: allPrices_def split: option.splits)

lemma robustRange_low_nonneg: "0 \<le> minPrice (robustRange apiHours hasData)"
proof (cases "\<exists>hours. apiHours = Some hours \<and> hasData \<and> allPrices hours \<noteq> []")
  case True
  then obtain hours where h: "apiHours = Some hours" "hasData" "allPrices hours \<noteq> []" by blast
  have "minPrice (computeRobustRange (allPrices hours)) \<in> set (allPrices hours)"
    using h(3) by (rule computeRobustRange_nonempty(2))
  then have "0 \<le> minPrice (computeRobustRange (allPrices hours))" by (rule allPrices_nonneg)
  then show ?thesis using h by (simp add: robustRange_def)
next
  case False
  then show ?thesis
    by (cases apiHours) (auto simp: robustRange_def computeRobustRange_def)
qed

subsection \<open>The end-to-end example\<close>

text \<open>
  C1, as the specification states it: for the series with the single snapshot
  \<open>{hour: 12, prices: {DE: 50, FR: -5, PL: 500}}\<close> the range is \<open>{50, 50}\<close> and the price
  50 gets the neutral hue of a degenerate range. The code does not do this: 500 is not
  negative, so it is collected with 50; of the two sorted values the index
  \<open>floor(2 * 0.95) = 1\<close> selects 500.
\<close>

theorem endToEnd_not_degenerate:
  "robustRange
     (Some [\<lparr>hour = 12, prices = [(''DE'', Some 50), (''FR'', Some (-5)), (''PL'', Some 500)]\<rparr>])
     (hasValidPrices
        [\<lparr>hour = 12, prices = [(''DE'', Some 50), (''FR'', Some (-5)), (''PL'', Some 500)]\<rparr>])
     \<noteq> \<lparr>minPrice = 50, maxPrice = 50\<rparr> \<and>
   colorFor 50
     (robustRange
        (Some [\<lparr>hour = 12, prices = [(''DE'', Some 50), (''FR'', Some (-5)), (''PL'', Some 500)]\<rparr>])
        (hasValidPrices
           [\<lparr>hour = 12, prices = [(''DE'', Some 50), (''FR'', Some (-5)), (''PL'', Some 500)]\<rparr>]))
     \<noteq> Hsl 80 85 50"
  by (simp add: robustRange_def hasValidPrices_def allPrices_def computeRobustRange_def
        colorFor_def calculateDynamicColor_def)

text \<open>
  C1, amended: for that series the range is \<open>{low: 50, high: 500}\<close>; the price 50 gets the
  colour of the cheap end of the scale, \<open>hsl(140, 80%, 45%)\<close>; the price -5 gets the fixed
  colour of negative prices.
\<close>

theorem endToEnd_example:
  "robustRange
     (Some [\<lparr>hour = 12, prices = [(''DE'', Some 50), (''FR'', Some (-5)), (''PL'', Some 500)]\<rparr>])
     (hasValidPrices
        [\<lparr>hour = 12, prices = [(''DE'', Some 50), (''FR'', Some (-5)), (''PL'', Some 500)]\<rparr>])
     = \<lparr>minPrice = 50, maxPrice = 500\<rparr> \<and>
   colorFor 50 \<lparr>minPrice = 50, maxPrice = 500\<rparr> = Hsl 140 80 45 \<and>
   colorFor (-5) \<lparr>minPrice = 50, maxPrice = 500\<rparr> = Hex ''#3b82f6''"
  by (simp add: robustRange_def hasValidPrices_def allPrices_def computeRobustRange_def
        colorFor_def calculateDynamicColor_def)

subsection \<open>The robust range\<close>

text \<open>
  C6: on the empty sequence the range is the fallback \<open>{0, 100}\<close>; on a sequence of one
  value low and high are equal; on every non-empty sequence of non-negative values
  low is at most high and both lie between the least and the greatest value.
\<close>

theorem computeRobustRange_bounds:
  "computeRobustRange [] = \<lparr>minPrice = 0, maxPrice = 100\<rparr> \<and>
   minPrice (computeRobustRange [v]) = maxPrice (computeRobustRange [v]) \<and>
   (vs \<noteq> [] \<and> (\<forall>x \<in> set vs. 0 \<le> x) \<longrightarrow>
      minPrice (computeRobustRange vs) \<le> maxPrice (computeRobustRange vs) \<and>
      Min (set vs) \<le> minPrice (computeRobustRange vs) \<and>
      minPrice (computeRobustRange vs) \<le> Max (set vs) \<and>
      Min (set vs) \<le> maxPrice (computeRobustRange vs) \<and>
      maxPrice (computeRobustRange vs) \<le> Max (set vs))"
proof (intro conjI impI)
  show "computeRobustRange [] = \<lparr>minPrice = 0, maxPrice = 100\<rparr>"
    by (simp add: computeRobustRange_def)
  show "minPrice (computeRobustRange [v]) = maxPrice (computeRobustRange [v])"
    by (simp add: computeRobustRange_def)
next
  assume a: "vs \<noteq> [] \<and> (\<forall>x \<in> set vs. 0 \<le> x)"
  then have ne: "vs \<noteq> []" by simp
  note r = computeRobustRange_nonempty[OF ne]
  show "minPrice (computeRobustRange vs) \<le> maxPrice (computeRobustRange vs)" by (rule r(1))
  show "Min (set vs) \<le> minPrice (computeRobustRange vs)" using r(2) by simp
  show "minPrice (computeRobustRange vs) \<le> Max (set vs)" using r(2) by simp
  show "Min (set vs) \<le> maxPrice (computeRobustRange vs)" using r(3) by simp
  show "maxPrice (computeRobustRange vs) \<le> Max (set vs)" using r(3) by simp
qed

theorem computeRobustRange_bounds_witness:
  "[3, 1, 2::real] \<noteq> [] \<and> list_all (\<lambda>x. 0 \<le> x) [3, 1, 2::real] \<and>
   computeRobustRange [3, 1, 2] = \<lparr>minPrice = 1, maxPrice = 3\<rparr> \<and>
   minPrice (computeRobustRange [3, 1, 2]) \<le> maxPrice (computeRobustRange [3, 1, 2]) \<and>
   Min (set [3, 1, 2::real]) \<le> minPrice (computeRobustRange [3, 1, 2]) \<and>
   maxPrice (computeRobustRange [3, 1, 2]) \<le> Max (set [3, 1, 2::real])"
  using computeRobustRange_bounds [of 7 "[3, 1, 2]"]
  by (simp add: computeRobustRange_def)

text \<open>
  C10: when every price present in a non-empty series is negative, the range is the
  fallback \<open>{0, 100}\<close>, the same as for the empty series, whatever the stored flag says,
  and the colour of a price is computed from 0 and 100.
\<close>

theorem robustRange_all_negative:
  assumes "hours \<noteq> []"
    and "\<forall>h \<in> set hours. \<forall>e \<in> set (prices h). \<forall>v. snd e = Some v \<longrightarrow> v < 0"
  shows "robustRange (Some hours) hasData = \<lparr>minPrice = 0, maxPrice = 100\<rparr> \<and>
         robustRange (Some hours) hasData = robustRange (Some []) hasData \<and>
         colorFor price (robustRange (Some hours) hasData) = calculateDynamicColor price 0 100"
proof -
  have "allPrices hours = []" using assms(2) by (rule allPrices_all_negative)
  then have r: "robustRange (Some hours) hasData = \<lparr>minPrice = 0, maxPrice = 100\<rparr>"
    by (simp add: robustRange_def computeRobustRange_def)
  have e: "robustRange (Some []) hasData = \<lparr>minPrice = 0, maxPrice = 100\<rparr>"
    by (simp add: robustRange_def computeRobustRange_def allPrices_def)
  show ?thesis using r e by (simp add: colorFor_def)
qed

theorem robustRange_all_negative_witness:
  "[\<lparr>hour = 3, prices = [(''DE'', Some (-5)), (''FR'', None), (''PL'', Some (-1))]\<rparr>] \<noteq> [] \<and>
   list_all (\<lambda>h. list_all (\<lambda>e. case snd e of None \<Rightarrow> True | Some v \<Rightarrow> v < 0) (prices h))
     [\<lparr>hour = 3, prices = [(''DE'', Some (-5)), (''FR'', None), (''PL'', Some (-1))]\<rparr>] \<and>
   hasValidPrices [\<lparr>hour = 3, prices = [(''DE'', Some (-5)), (''FR'', None), (''PL'', Some (-1))]\<rparr>] \<and>
   robustRange
     (Some [\<lparr>hour = 3, prices = [(''DE'', Some (-5)), (''FR'', None), (''PL'', Some (-1))]\<rparr>]) True
     = \<lparr>minPrice = 0, maxPrice = 100\<rparr>"
proof -
  have ne: "[\<lparr>hour = 3, prices = [(''DE'', Some (-5)), (''FR'', None), (''PL'', Some (-1::real))]\<rparr>] \<noteq> []"
    by simp
  have neg: "\<forall>h \<in> set [\<lparr>hour = 3, prices = [(''DE'', Some (-5)), (''FR'', None), (''PL'', Some (-1::real))]\<rparr>].
      \<forall>e \<in> set (prices h). \<forall>v. snd e = Some v \<longrightarrow> v < 0"
    by simp
  have hv: "hasValidPrices [\<lparr>hour = 3, prices = [(''DE'', Some (-5)), (''FR'', None), (''PL'', Some (-1))]\<rparr>]"
    by (simp add: hasValidPrices_def)
  show ?thesis using ne hv robustRange_all_negative [OF ne neg, of True 0] by simp
qed

subsection \<open>The colour scale\<close>

text \<open>
  C7: every range the program builds has a low end that is not negative. Over such a
  range with low below high, for all prices \<open>a\<close> and \<open>b\<close> with
  \<open>low \<le> a \<le> b \<le> high\<close> both colours are hues at saturation 80 and lightness 45, the
  hue of \<open>b\<close> is at most the hue of \<open>a\<close>, so \<open>a\<close> is no closer to the red end (hue 0)
  than \<open>b\<close>, and both hues lie between 0 and 140. The low end gets hue 140 and the high
  end hue 0, and a price outside the range that reaches the scale (one that is not
  negative) gets the colour of the nearer end.
\<close>

theorem colorFor_monotone:
  assumes "minPrice r < maxPrice r" and "0 \<le> minPrice r"
    and "minPrice r \<le> a" and "a \<le> b" and "b \<le> maxPrice r"
  shows "(\<exists>ha hb. colorFor a r = Hsl ha 80 45 \<and> colorFor b r = Hsl hb 80 45 \<and>
                  hb \<le> ha \<and> 0 \<le> hb \<and> ha \<le> 140) \<and>
         colorFor (minPrice r) r = Hsl 140 80 45 \<and>
         colorFor (maxPrice r) r = Hsl 0 80 45 \<and>
         (\<forall>p. 0 \<le> p \<and> p < minPrice r \<longrightarrow> colorFor p r = colorFor (minPrice r) r) \<and>
         (\<forall>p. maxPrice r < p \<longrightarrow> colorFor p r = colorFor (maxPrice r) r) \<and>
         0 \<le> minPrice (robustRange apiHours hasData)"
proof (intro conjI impI allI)
  have a0: "0 \<le> a" using assms by simp
  have h0: "0 \<le> maxPrice r" using assms by simp
  show "\<exists>ha hb. colorFor a r = Hsl ha 80 45 \<and> colorFor b r = Hsl hb 80 45 \<and>
                hb \<le> ha \<and> 0 \<le> hb \<and> ha \<le> 140"
    unfolding colorFor_def using assms(1) a0 assms(4) by (rule hue_nonincreasing)
  show lo: "colorFor (minPrice r) r = Hsl 140 80 45"
    unfolding colorFor_def using assms(1,2) by (simp add: clamp_below)
  show hi: "colorFor (maxPrice r) r = Hsl 0 80 45"
    unfolding colorFor_def using assms(1) h0 by (simp add: clamp_above)
  show "colorFor p r = colorFor (minPrice r) r" if "0 \<le> p \<and> p < minPrice r" for p
    unfolding lo unfolding colorFor_def using assms(1) that by (simp add: clamp_below)
  show "colorFor p r = colorFor (maxPrice r) r" if "maxPrice r < p" for p
  proof -
    have "0 \<le> p" using h0 that by simp
    then show ?thesis unfolding hi unfolding colorFor_def using assms(1) that
      by (simp add: clamp_above)
  qed
  show "0 \<le> minPrice (robustRange apiHours hasData)" by (rule robustRange_low_nonneg)
qed

theorem colorFor_monotone_witness:
  "minPrice \<lparr>minPrice = 20, maxPrice = 100\<rparr> < maxPrice \<lparr>minPrice = 20, maxPrice = 100\<rparr> \<and>
   0 \<le> minPrice \<lparr>minPrice = 20, maxPrice = 100\<rparr> \<and>
   minPrice \<lparr>minPrice = 20, maxPrice = 100\<rparr> \<le> 40 \<and> (40::real) \<le> 80 \<and>
   80 \<le> maxPrice \<lparr>minPrice = 20, maxPrice = 100\<rparr> \<and>
   colorFor 40 \<lparr>minPrice = 20, maxPrice = 100\<rparr> = Hsl 105 80 45 \<and>
   colorFor 80 \<lparr>minPrice = 20, maxPrice = 100\<rparr> = Hsl 35 80 45 \<and>
   colorFor 5 \<lparr>minPrice = 20, maxPrice = 100\<rparr> = Hsl 140 80 45 \<and>
   colorFor 500 \<lparr>minPrice = 20, maxPrice = 100\<rparr> = Hsl 0 80 45 \<and>
   (\<exists>ha hb. colorFor 40 \<lparr>minPrice = 20, maxPrice = 100\<rparr> = Hsl ha 80 45 \<and>
            colorFor 80 \<lparr>minPrice = 20, maxPrice = 100\<rparr> = Hsl hb 80 45 \<and> hb \<le> ha)"
proof -
  let ?r = "\<lparr>minPrice = 20, maxPrice = 100\<rparr>"
  have h1: "minPrice ?r < maxPrice ?r" and h2: "0 \<le> minPrice ?r"
    and h3: "minPrice ?r \<le> 40" and h4: "(40::real) \<le> 80" and h5: "80 \<le> maxPrice ?r"
    by simp_all
  have c1: "colorFor 40 ?r = Hsl 105 80 45"
    by (simp add: colorFor_def calculateDynamicColor_def)
  have c2: "colorFor 80 ?r = Hsl 35 80 45"
    by (simp add: colorFor_def calculateDynamicColor_def)
  note m = colorFor_monotone [OF h1 h2 h3 h4 h5]
  have c3: "colorFor 5 ?r = Hsl 140 80 45" using m by simp
  have c4: "colorFor 500 ?r = Hsl 0 80 45" using m by simp
  show ?thesis using h1 h2 h3 h4 h5 c1 c2 c3 c4 m by blast
qed

subsection \<open>The prices of one hour\<close>

text \<open>
  C8: without a stored series, or when no snapshot has the selected hour, the mapping
  is empty. Otherwise, with \<open>hourObj\<close> the first snapshot of that hour, the mapping
  sends a region to a price exactly when the snapshot has an entry with that price,
  present, under a zone code that resolves to the region, and no later entry of the
  snapshot with a present price resolves to the same region: the later entry wins.
  Resolution ignores the case of the zone code: two ASCII codes that differ only in
  the case of their letters resolve alike, and every key of the table resolves to its
  region when written in lower case, as it does when written as in the table.
\<close>

theorem priceMap_forHour:
  assumes "\<And>s. ascii s \<Longrightarrow> toUpperCase s = upperAscii s"
  shows
  "priceMap toUpperCase None selectedHour = Map.empty \<and>
   (find (\<lambda>h. hour h = selectedHour) hours = None \<longrightarrow>
      priceMap toUpperCase (Some hours) selectedHour = Map.empty) \<and>
   (\<forall>hourObj. find (\<lambda>h. hour h = selectedHour) hours = Some hourObj \<longrightarrow>
      (\<forall>iso3 v. priceMap toUpperCase (Some hours) selectedHour iso3 = Some v \<longleftrightarrow>
         (\<exists>pre zoneCode post.
            prices hourObj = pre @ (zoneCode, Some v) # post \<and>
            resolve toUpperCase zoneCode = Some iso3 \<and>
            (\<forall>e \<in> set post. snd e \<noteq> None \<longrightarrow>
               resolve toUpperCase (fst e) \<noteq> Some iso3)))) \<and>
   (\<forall>z z'. ascii z \<and> ascii z' \<and> toLowerCase z = toLowerCase z' \<longrightarrow>
      resolve toUpperCase z = resolve toUpperCase z') \<and>
   map (\<lambda>e. resolve toUpperCase (toLowerCase (fst e))) ZONE_TO_ISO3
     = map (\<lambda>e. Some (snd e)) ZONE_TO_ISO3 \<and>
   map (\<lambda>e. resolve toUpperCase (fst e)) ZONE_TO_ISO3
     = map (\<lambda>e. Some (snd e)) ZONE_TO_ISO3 \<and>
   resolve toUpperCase ''de'' = Some ''DEU'' \<and>
   resolve toUpperCase ''No2'' = Some ''NOR'' \<and>
   resolve toUpperCase ''xx'' = None"
proof (intro conjI impI allI)
  note ra = resolve_ascii [of toUpperCase, OF assms]
  show "priceMap toUpperCase None selectedHour = Map.empty" by (simp add: priceMap_def)
  show "priceMap toUpperCase (Some hours) selectedHour = Map.empty"
    if "find (\<lambda>h. hour h = selectedHour) hours = None"
    using that by (simp add: priceMap_def)
  show "priceMap toUpperCase (Some hours) selectedHour iso3 = Some v \<longleftrightarrow>
         (\<exists>pre zoneCode post.
            prices hourObj = pre @ (zoneCode, Some v) # post \<and>
            resolve toUpperCase zoneCode = Some iso3 \<and>
            (\<forall>e \<in> set post. snd e \<noteq> None \<longrightarrow>
               resolve toUpperCase (fst e) \<noteq> Some iso3))"
    if "find (\<lambda>h. hour h = selectedHour) hours = Some hourObj" for hourObj iso3 v
    using that by (simp add: priceMap_def fold_setZone_last)
  show "resolve toUpperCase z = resolve toUpperCase z'"
    if h: "ascii z \<and> ascii z' \<and> toLowerCase z = toLowerCase z'" for z z'
  proof -
    have "upperAscii z = upperAscii (toLowerCase z)" by (simp add: upperAscii_toLowerCase)
    also have "\<dots> = upperAscii z'" using h by (simp add: upperAscii_toLowerCase)
    finally show ?thesis using h by (simp add: ra)
  qed
  have asc: "list_all (\<lambda>e. ascii (fst e) \<and> ascii (toLowerCase (fst e))) ZONE_TO_ISO3"
    by (simp add: ZONE_TO_ISO3_def ascii_def toLowerCase_def lower_char_def)
  have tbl: "map (\<lambda>e. map_of ZONE_TO_ISO3 (upperAscii (fst e))) ZONE_TO_ISO3
               = map (\<lambda>e. Some (snd e)) ZONE_TO_ISO3"
    by (simp add: ZONE_TO_ISO3_def upperAscii_def upper_char_def)
  have "map (\<lambda>e. resolve toUpperCase (toLowerCase (fst e))) ZONE_TO_ISO3
          = map (\<lambda>e. map_of ZONE_TO_ISO3 (upperAscii (fst e))) ZONE_TO_ISO3"
  proof (rule map_cong)
    show "ZONE_TO_ISO3 = ZONE_TO_ISO3" by (rule refl)
    show "resolve toUpperCase (toLowerCase (fst e)) = map_of ZONE_TO_ISO3 (upperAscii (fst e))"
      if "e \<in> set ZONE_TO_ISO3" for e
    proof -
      have "ascii (toLowerCase (fst e))" using asc that by (simp add: list_all_iff)
      then show ?thesis by (simp add: ra upperAscii_toLowerCase)
    qed
  qed
  then show "map (\<lambda>e. resolve toUpperCase (toLowerCase (fst e))) ZONE_TO_ISO3
          = map (\<lambda>e. Some (snd e)) ZONE_TO_ISO3"
    using tbl by simp
  have "map (\<lambda>e. resolve toUpperCase (fst e)) ZONE_TO_ISO3
          = map (\<lambda>e. map_of ZONE_TO_ISO3 (upperAscii (fst e))) ZONE_TO_ISO3"
  proof (rule map_cong)
    show "ZONE_TO_ISO3 = ZONE_TO_ISO3" by (rule refl)
    show "resolve toUpperCase (fst e) = map_of ZONE_TO_ISO3 (upperAscii (fst e))"
      if "e \<in> set ZONE_TO_ISO3" for e
    proof -
      have "ascii (fst e)" using asc that by (simp add: list_all_iff)
      then show ?thesis by (simp add: ra)
    qed
  qed
  then show "map (\<lambda>e. resolve toUpperCase (fst e)) ZONE_TO_ISO3
          = map (\<lambda>e. Some (snd e)) ZONE_TO_ISO3"
    using tbl by simp
  have "ascii ''de''" by (simp add: ascii_def)
  then show "resolve toUpperCase ''de'' = Some ''DEU''"
    by (simp add: ra ZONE_TO_ISO3_def upperAscii_def upper_char_def)
  have "ascii ''No2''" by (simp add: ascii_def)
  then show "resolve toUpperCase ''No2'' = Some ''NOR''"
    by (simp add: ra ZONE_TO_ISO3_def upperAscii_def upper_char_def)
  have "ascii ''xx''" by (simp add: ascii_def)
  then show "resolve toUpperCase ''xx'' = None"
    by (simp add: ra ZONE_TO_ISO3_def upperAscii_def upper_char_def)
qed

theorem priceMap_forHour_witness:
  "find (\<lambda>h. hour h = 12)
     [\<lparr>hour = 7, prices = [(''DE'', Some 1)]\<rparr>,
      \<lparr>hour = 12, prices = [(''GB'', Some 10), (''XX'', Some 3), (''uk'', Some 20), (''de'', None)]\<rparr>]
     = Some \<lparr>hour = 12, prices = [(''GB'', Some 10), (''XX'', Some 3), (''uk'', Some 20), (''de'', None)]\<rparr> \<and>
   priceMap upperAscii
     (Some [\<lparr>hour = 7, prices = [(''DE'', Some 1)]\<rparr>,
            \<lparr>hour = 12, prices = [(''GB'', Some 10), (''XX'', Some 3), (''uk'', Some 20), (''de'', None)]\<rparr>])
     12 ''GBR'' = Some 20 \<and>
   priceMap upperAscii
     (Some [\<lparr>hour = 7, prices = [(''DE'', Some 1)]\<rparr>,
            \<lparr>hour = 12, prices = [(''GB'', Some 10), (''XX'', Some 3), (''uk'', Some 20), (''de'', None)]\<rparr>])
     12 ''DEU'' = None \<and>
   resolve upperAscii ''uk'' = Some ''GBR'' \<and>
   resolve upperAscii ''de'' = Some ''DEU'' \<and>
   (\<exists>pre zoneCode post.
      [(''GB'', Some 10), (''XX'', Some 3), (''uk'', Some 20), (''de'', None)]
        = pre @ (zoneCode, Some (20::real)) # post \<and>
      resolve upperAscii zoneCode = Some ''GBR'' \<and>
      (\<forall>e \<in> set post. snd e \<noteq> None \<longrightarrow> resolve upperAscii (fst e) \<noteq> Some ''GBR''))"
proof -
  let ?h12 = "\<lparr>hour = 12, prices = [(''GB'', Some 10), (''XX'', Some 3), (''uk'', Some 20), (''de'', None)]\<rparr>"
  let ?hours = "[\<lparr>hour = 7, prices = [(''DE'', Some 1)]\<rparr>, ?h12]"
  have up: "\<And>s. ascii s \<Longrightarrow> upperAscii s = upperAscii s" by simp
  note t = priceMap_forHour [of upperAscii 12 ?hours, OF up]
  have f: "find (\<lambda>h. hour h = 12) ?hours = Some ?h12" by simp
  have m: "priceMap upperAscii (Some ?hours) 12 ''GBR'' = Some 20"
    by (simp add: priceMap_def setZone_def resolve_def upperAscii_def upper_char_def
          ZONE_TO_ISO3_def)
  have n: "priceMap upperAscii (Some ?hours) 12 ''DEU'' = None"
    by (simp add: priceMap_def setZone_def resolve_def upperAscii_def upper_char_def
          ZONE_TO_ISO3_def)
  have u: "resolve upperAscii ''uk'' = Some ''GBR''"
    by (simp add: resolve_def upperAscii_def upper_char_def ZONE_TO_ISO3_def)
  have d: "resolve upperAscii ''de'' = Some ''DEU''" using t by blast
  have "\<exists>pre zoneCode post.
      prices ?h12 = pre @ (zoneCode, Some 20) # post \<and>
      resolve upperAscii zoneCode = Some ''GBR'' \<and>
      (\<forall>e \<in> set post. snd e \<noteq> None \<longrightarrow> resolve upperAscii (fst e) \<noteq> Some ''GBR'')"
    using t f m by blast
  then show ?thesis using f m n u d by simp
qed

section \<open>Properties of the chart payload handling\<close>

subsection \<open>Auxiliary facts\<close>

text \<open>
  A rule that fires leaves a payload with truthy \<^verbatim>\<open>data.datasets\<close>, and no later rule
  fires on such a payload. So a payload that fails the final test was changed by no
  rule, and the raw payload shown with the failure is the one received.
\<close>

lemma truthy_field_obj: "truthy (field p k) \<Longrightarrow> \<exists>fs. p = JObj fs"
  by (cases p) simp_all

lemma map_of_assign_entry: "map_of (assign_entry k w fs) = (map_of fs)(k \<mapsto> w)"
  by (induction fs) (auto simp: fun_eq_iff)

lemma field_assign_same: "field (assign (JObj fs) k w) k = w"
  by (simp add: map_of_assign_entry)

lemma assign_entry_same: "map_of fs k = Some w \<Longrightarrow> assign_entry k w fs = fs"
  by (induction fs) (auto split: if_splits)

lemma assign_field_id: "truthy (field p k) \<Longrightarrow> assign p k (field p k) = p"
proof -
  assume t: "truthy (field p k)"
  then obtain fs where p: "p = JObj fs" using truthy_field_obj by blast
  with t obtain w where "map_of fs k = Some w" by (cases "map_of fs k") auto
  then show ?thesis using p by (simp add: assign_entry_same)
qed

lemma casoD_cases: "casoD p = p \<or> hasDatasets (casoD p)"
proof (cases "truthy (field p ''data'') \<and> isArray (field (field p ''data'') ''x'') \<and> isArray (field (field p ''data'') ''y'')")
  case True
  then obtain fs where "p = JObj fs" using truthy_field_obj by blast
  then show ?thesis using True
    by (simp add: casoD_def Let_def hasDatasets_def map_of_assign_entry)
next
  case False
  then show ?thesis by (auto simp: casoD_def Let_def)
qed

lemma casoA_cases: "casoA p = p \<or> hasDatasets (casoA p)"
proof (cases "\<not> truthy (field p ''data'') \<and> truthy (field p ''datasets'')")
  case True
  then obtain fs where "p = JObj fs" using truthy_field_obj by blast
  then show ?thesis using True
    by (simp add: casoA_def hasDatasets_def map_of_assign_entry)
next
  case False
  then show ?thesis by (auto simp: casoA_def)
qed

lemma casoB_cases: "casoB p = p \<or> hasDatasets (casoB p)"
proof (cases "truthy (field p ''data'') \<and> truthy (field (field p ''data'') ''dataset'') \<and> \<not> truthy (field (field p ''data'') ''datasets'')")
  case True
  then obtain fs where p: "p = JObj fs" using truthy_field_obj by blast
  from True obtain ds where d: "field p ''data'' = JObj ds" using truthy_field_obj by blast
  define w where "w = (if isArray (field (JObj ds) ''dataset'') then field (JObj ds) ''dataset''
                        else JArr [field (JObj ds) ''dataset''])"
  have tw: "truthy w" using True d by (simp add: w_def)
  have c: "casoB p = assign (JObj fs) ''data'' (assign (JObj ds) ''datasets'' w)"
    using True p d unfolding casoB_def Let_def w_def by simp
  have f1: "field (casoB p) ''data'' = assign (JObj ds) ''datasets'' w"
    unfolding c by (rule field_assign_same)
  have f2: "field (field (casoB p) ''data'') ''datasets'' = w"
    unfolding f1 by (rule field_assign_same)
  have "truthy (field (casoB p) ''data'')" unfolding f1 by simp
  then show ?thesis using f2 tw by (simp add: hasDatasets_def)
next
  case False
  then show ?thesis by (auto simp: casoB_def Let_def)
qed

lemma casoC_cases: "casoC p = p \<or> hasDatasets (casoC p)"
proof (cases "\<not> truthy (field p ''data'') \<and> truthy (field p ''dataset'')")
  case True
  then obtain fs where "p = JObj fs" using truthy_field_obj by blast
  then show ?thesis using True
    by (simp add: casoC_def hasDatasets_def map_of_assign_entry)
next
  case False
  then show ?thesis by (auto simp: casoC_def)
qed

lemma casoA_keeps: "hasDatasets p \<Longrightarrow> casoA p = p"
  by (simp add: casoA_def hasDatasets_def)

lemma casoB_keeps: "hasDatasets p \<Longrightarrow> casoB p = p"
  by (simp add: casoB_def hasDatasets_def Let_def)

lemma casoC_keeps: "hasDatasets p \<Longrightarrow> casoC p = p"
  by (simp add: casoC_def hasDatasets_def)

lemma adaptData_cases: "adaptData p = p \<or> hasDatasets (adaptData p)"
proof -
  consider "hasDatasets (casoD p)" | "casoD p = p" using casoD_cases by blast
  then show ?thesis
  proof cases
    case 1
    then show ?thesis by (simp add: adaptData_def casoA_keeps casoB_keeps casoC_keeps)
  next
    case 2
    consider "hasDatasets (casoA p)" | "casoA p = p" using casoA_cases by blast
    then show ?thesis
    proof cases
      case 1
      then show ?thesis using 2 by (simp add: adaptData_def casoB_keeps casoC_keeps)
    next
      case a: 2
      consider "hasDatasets (casoB p)" | "casoB p = p" using casoB_cases by blast
      then show ?thesis
      proof cases
        case 1
        then show ?thesis using 2 a by (simp add: adaptData_def casoC_keeps)
      next
        case b: 2
        show ?thesis using 2 a b casoC_cases[of p] by (simp add: adaptData_def)
      qed
    qed
  qed
qed

lemma rawAfter_unwrap: "rawAfter rawPayload (unwrap rawPayload) = rawPayload"
proof (cases "truthy (field rawPayload ''chart_data'')")
  case True
  then obtain fs where "rawPayload = JObj fs" using truthy_field_obj by blast
  then show ?thesis using True assign_field_id[OF True]
    by (simp add: rawAfter_def unwrap_def)
next
  case False
  then show ?thesis by (cases rawPayload) (simp_all add: rawAfter_def unwrap_def)
qed

lemma rawAfter_decode:
  "rawAfter rawPayload (unwrap (decode parse rawPayload)) = rawPayload"
proof (cases "\<exists>s. rawPayload = JStr s")
  case True
  then show ?thesis by (auto simp: rawAfter_def)
next
  case False
  then have "decode parse rawPayload = rawPayload"
    by (cases rawPayload) (simp_all add: decode_def)
  then show ?thesis by (simp add: rawAfter_unwrap)
qed

lemma field_absent:
  assumes "k \<notin> set (map fst fs)"
  shows "field (JObj fs) k = JUndefined"
proof -
  have "map_of fs k = None" using assms by (simp add: map_of_eq_None_iff)
  then show ?thesis by simp
qed

lemma canonicalD:
  assumes "canonical p"
  obtains fs ds ls ss where "p = JObj fs"
    and "set (map fst fs) \<subseteq> {''type'', ''data'', ''options''}"
    and "field p ''type'' = JStr ''line'' \<or> field p ''type'' = JStr ''bar''"
    and "field p ''data'' = JObj ds"
    and "set (map fst ds) \<subseteq> {''labels'', ''datasets''}"
    and "field (JObj ds) ''labels'' = JArr ls"
    and "field (JObj ds) ''datasets'' = JArr ss"
    and "ss \<noteq> []" and "list_all (canonicalSeries (length ls)) ss"
  using assms unfolding canonical_def
  by (auto split: jsval.splits prod.splits)

text \<open>
  The one exception that leaves \<^verbatim>\<open>renderChart\<close>: a string payload that decodes to
  \<^verbatim>\<open>null\<close>.
\<close>

lemma renderChart_null_text: "renderChart parseLiteral (JStr ''null'') = Inl TypeError"
  by (simp add: renderChart_def decode_def parseLiteral_def)

subsection \<open>Strings that do not parse\<close>

text \<open>
  C2, as the specification states it: every string that is not valid JSON ends in a
  failure shown as a placeholder. The code does not do this for the empty string: it is
  not valid JSON, and \<^verbatim>\<open>renderChart\<close> returns \<^verbatim>\<open>null\<close> for it at line 152, before any
  parsing, so nothing is shown.
\<close>

theorem renderChart_empty_string:
  "parseLiteral [] = None \<and> renderChart parseLiteral (JStr []) = Inr Nothing"
  by (simp add: parseLiteral_def renderChart_def)

text \<open>
  C2, amended: for a string that \<^verbatim>\<open>JSON.parse\<close> rejects nothing is thrown. The error is
  caught and the string stays the payload; no adaptation rule changes it; the empty
  string renders nothing, and every other such string ends at the final test in the one
  diagnostic block the code has, "Chart data unavailable (Structure mismatch)", which
  shows the raw string.
\<close>

theorem renderChart_unparseable:
  assumes "parse s = None"
  shows "adaptData (unwrap (decode parse (JStr s))) = JStr s \<and>
         renderChart parse (JStr s) =
           (if s = [] then Inr Nothing else Inr (StructureMismatch (JStr s)))"
  using assms
  by (simp add: renderChart_def decode_def unwrap_def adaptData_def casoA_def casoB_def
        casoC_def casoD_def rawAfter_def Let_def)

theorem renderChart_unparseable_witness:
  "parseLiteral ''not json'' = None \<and>
   renderChart parseLiteral (JStr ''not json'') = Inr (StructureMismatch (JStr ''not json''))"
proof -
  have p: "parseLiteral ''not json'' = None" by (simp add: parseLiteral_def)
  show ?thesis using p renderChart_unparseable [of parseLiteral "''not json''"] by simp
qed

subsection \<open>The final test\<close>

text \<open>
  C3, as the specification states it: a payload passes only with a non-empty series
  collection whose series are as long as the labels. The code does not check this: a
  payload with an empty \<^verbatim>\<open>datasets\<close> array is drawn as a line chart, and so is one whose
  series has two values for one label.
\<close>

theorem renderChart_accepts_empty_series:
  "renderChart parseLiteral
     (JObj [(''data'', JObj [(''labels'', JArr []), (''datasets'', JArr [])])])
   = Inr (Chart LineChart (JObj [(''labels'', JArr []), (''datasets'', JArr [])]) JUndefined) \<and>
   renderChart parseLiteral
     (JObj [(''data'', JObj [(''labels'', JArr [JStr ''a'']),
                             (''datasets'', JArr [JObj [(''label'', JStr ''s''),
                                                        (''data'', JArr [JNum 1, JNum 2])]])])])
   = Inr (Chart LineChart
            (JObj [(''labels'', JArr [JStr ''a'']),
                   (''datasets'', JArr [JObj [(''label'', JStr ''s''),
                                              (''data'', JArr [JNum 1, JNum 2])]])])
            JUndefined)"
  by (simp add: renderChart_def decode_def unwrap_def adaptData_def casoA_def casoB_def
        casoC_def casoD_def Let_def chartType_def)

text \<open>
  C3, amended: for a truthy payload whose decoded form is not \<^verbatim>\<open>null\<close>, nothing is
  thrown. When after the adaptation rules the payload has no truthy \<^verbatim>\<open>data\<close> or no
  truthy \<^verbatim>\<open>data.datasets\<close>, the result is the structure-mismatch block showing the raw
  payload as it was received; otherwise the result is a chart over the adapted \<^verbatim>\<open>data\<close>
  and \<^verbatim>\<open>options\<close>, or the message of the caught rendering error. The empty object
  yields the structure-mismatch block.
\<close>

theorem renderChart_validation:
  assumes "truthy rawPayload"
    and "decode parse rawPayload \<noteq> JNull" and "decode parse rawPayload \<noteq> JUndefined"
  shows "(\<not> hasDatasets (adaptData (unwrap (decode parse rawPayload))) \<longrightarrow>
            renderChart parse rawPayload = Inr (StructureMismatch rawPayload)) \<and>
         (hasDatasets (adaptData (unwrap (decode parse rawPayload))) \<longrightarrow>
            renderChart parse rawPayload = Inr RenderError \<or>
            (\<exists>kind. renderChart parse rawPayload =
               Inr (Chart kind
                      (field (adaptData (unwrap (decode parse rawPayload))) ''data'')
                      (field (adaptData (unwrap (decode parse rawPayload))) ''options'')))) \<and>
         renderChart parse (JObj []) = Inr (StructureMismatch (JObj []))"
proof (intro conjI impI)
  let ?cp = "adaptData (unwrap (decode parse rawPayload))"
  show "renderChart parse rawPayload = Inr (StructureMismatch rawPayload)"
    if n: "\<not> hasDatasets ?cp"
  proof -
    have "?cp = unwrap (decode parse rawPayload)"
      using n adaptData_cases[of "unwrap (decode parse rawPayload)"] by simp
    then have "rawAfter rawPayload ?cp = rawPayload" by (simp add: rawAfter_decode)
    then show ?thesis using assms n
      by (simp add: renderChart_def Let_def hasDatasets_def)
  qed
  show "renderChart parse rawPayload = Inr RenderError \<or>
        (\<exists>kind. renderChart parse rawPayload =
           Inr (Chart kind (field ?cp ''data'') (field ?cp ''options'')))"
    if y: "hasDatasets ?cp"
    using assms y
    by (cases "chartType (field ?cp ''type'')")
       (simp_all add: renderChart_def Let_def hasDatasets_def)
  show "renderChart parse (JObj []) = Inr (StructureMismatch (JObj []))"
    by (simp add: renderChart_def decode_def unwrap_def adaptData_def casoA_def casoB_def
          casoC_def casoD_def rawAfter_def Let_def)
qed

theorem renderChart_validation_witness:
  "truthy (JStr ''{}'') \<and> decode parseLiteral (JStr ''{}'') = JObj [] \<and>
   \<not> hasDatasets (adaptData (unwrap (decode parseLiteral (JStr ''{}'')))) \<and>
   renderChart parseLiteral (JStr ''{}'') = Inr (StructureMismatch (JStr ''{}''))"
proof -
  have t: "truthy (JStr ''{}'')" by simp
  have d: "decode parseLiteral (JStr ''{}'') = JObj []"
    by (simp add: decode_def parseLiteral_def)
  have n: "\<not> hasDatasets (adaptData (unwrap (decode parseLiteral (JStr ''{}''))))"
    unfolding d
    by (simp add: hasDatasets_def unwrap_def adaptData_def casoA_def casoB_def casoC_def
          casoD_def Let_def)
  have "decode parseLiteral (JStr ''{}'') \<noteq> JNull"
    and "decode parseLiteral (JStr ''{}'') \<noteq> JUndefined" using d by simp_all
  from renderChart_validation [OF t this] n t d show ?thesis by blast
qed

subsection \<open>Payloads in canonical shape and the axis pair\<close>

text \<open>
  C4: a payload in canonical shape is changed by no step (decoding, unwrapping and the
  four rules return it as it is), and the chart rendered is of the payload's kind over
  the payload's own \<^verbatim>\<open>data\<close> and \<^verbatim>\<open>options\<close>.
\<close>

theorem renderChart_canonical:
  assumes "canonical p"
  shows "adaptData (unwrap (decode parse p)) = p \<and>
         renderChart parse p =
           Inr (Chart (if field p ''type'' = JStr ''bar'' then BarChart else LineChart)
                  (field p ''data'') (field p ''options''))"
proof -
  from assms obtain fs ds ls ss where p: "p = JObj fs"
    and keys: "set (map fst fs) \<subseteq> {''type'', ''data'', ''options''}"
    and ty: "field p ''type'' = JStr ''line'' \<or> field p ''type'' = JStr ''bar''"
    and d: "field p ''data'' = JObj ds"
    and dkeys: "set (map fst ds) \<subseteq> {''labels'', ''datasets''}"
    and dls: "field (JObj ds) ''labels'' = JArr ls"
    and dss: "field (JObj ds) ''datasets'' = JArr ss"
    by (rule canonicalD)
  have dec: "decode parse p = p" using p by (simp add: decode_def)
  have "''chart_data'' \<notin> set (map fst fs)" using keys by auto
  then have "field p ''chart_data'' = JUndefined" unfolding p by (rule field_absent)
  then have unw: "unwrap p = p" by (simp add: unwrap_def)
  have "''x'' \<notin> set (map fst ds)" using dkeys by auto
  then have "field (JObj ds) ''x'' = JUndefined" by (rule field_absent)
  then have cD: "casoD p = p" using d by (simp add: casoD_def Let_def)
  have cA: "casoA p = p" using d by (simp add: casoA_def)
  have "''dataset'' \<notin> set (map fst ds)" using dkeys by auto
  then have "field (JObj ds) ''dataset'' = JUndefined" by (rule field_absent)
  then have cB: "casoB p = p" using d by (simp add: casoB_def Let_def)
  have cC: "casoC p = p" using d by (simp add: casoC_def)
  have ad: "adaptData p = p" by (simp add: adaptData_def cD cA cB cC)
  have ct: "chartType (field p ''type'') = Inr ''line'' \<and> field p ''type'' \<noteq> JStr ''bar'' \<or>
            chartType (field p ''type'') = Inr ''bar'' \<and> field p ''type'' = JStr ''bar''"
    using ty by (auto simp: chartType_def toLowerCase_def lower_char_def)
  have t: "truthy p" and nn: "p \<noteq> JNull" and nu: "p \<noteq> JUndefined" using p by simp_all
  have td: "truthy (field p ''data'')" and tds: "truthy (field (field p ''data'') ''datasets'')"
    using d dss by simp_all
  have r: "renderChart parse p =
           Inr (Chart (if field p ''type'' = JStr ''bar'' then BarChart else LineChart)
                  (field p ''data'') (field p ''options''))"
    unfolding renderChart_def Let_def dec unw ad
    using ct t nn nu td tds by auto
  show ?thesis using dec unw ad r by simp
qed

theorem renderChart_canonical_witness:
  "canonical
     (JObj [(''type'', JStr ''bar''),
            (''data'', JObj [(''labels'', JArr [JStr ''a'', JStr ''b'']),
                             (''datasets'', JArr [JObj [(''label'', JStr ''s''),
                                                        (''data'', JArr [JNum 1, JNum 2])]])]),
            (''options'', JObj [])]) \<and>
   renderChart parseLiteral
     (JObj [(''type'', JStr ''bar''),
            (''data'', JObj [(''labels'', JArr [JStr ''a'', JStr ''b'']),
                             (''datasets'', JArr [JObj [(''label'', JStr ''s''),
                                                        (''data'', JArr [JNum 1, JNum 2])]])]),
            (''options'', JObj [])])
     = Inr (Chart BarChart
              (JObj [(''labels'', JArr [JStr ''a'', JStr ''b'']),
                     (''datasets'', JArr [JObj [(''label'', JStr ''s''),
                                                (''data'', JArr [JNum 1, JNum 2])]])])
              (JObj []))"
proof -
  let ?p = "JObj [(''type'', JStr ''bar''),
            (''data'', JObj [(''labels'', JArr [JStr ''a'', JStr ''b'']),
                             (''datasets'', JArr [JObj [(''label'', JStr ''s''),
                                                        (''data'', JArr [JNum 1, JNum 2])]])]),
            (''options'', JObj [])]"
  have c: "canonical ?p" by (simp add: canonical_def canonicalSeries_def)
  show ?thesis using c renderChart_canonical [OF c, of parseLiteral] by simp
qed

text \<open>
  C5: the payload \<open>{data: {x: [0,1,2], y: [10,20,30], ylabel: "Price"}}\<close> yields a line
  chart with the labels \<open>[0,1,2]\<close> and exactly one series, named "Price", with the values
  \<open>[10,20,30]\<close>; an axis pair that comes with neither \<^verbatim>\<open>ylabel\<close> nor \<^verbatim>\<open>title\<close> yields the
  series name "Value".
\<close>

theorem renderChart_axis_pair:
  "renderChart parse
     (JObj [(''data'', JObj [(''x'', JArr [JNum 0, JNum 1, JNum 2]),
                             (''y'', JArr [JNum 10, JNum 20, JNum 30]),
                             (''ylabel'', JStr ''Price'')])])
   = Inr (Chart LineChart
            (JObj [(''labels'', JArr [JNum 0, JNum 1, JNum 2]),
                   (''datasets'', JArr [JObj [(''label'', JStr ''Price''),
                                              (''data'', JArr [JNum 10, JNum 20, JNum 30]),
                                              (''borderColor'', JStr ''rgba(54, 162, 235, 1)''),
                                              (''backgroundColor'', JStr ''rgba(54, 162, 235, 0.2)''),
                                              (''borderWidth'', JNum 2)]])])
            JUndefined) \<and>
   renderChart parse
     (JObj [(''data'', JObj [(''x'', JArr xs), (''y'', JArr ys)])])
   = Inr (Chart LineChart
            (JObj [(''labels'', JArr xs),
                   (''datasets'', JArr [JObj [(''label'', JStr ''Value''),
                                              (''data'', JArr ys),
                                              (''borderColor'', JStr ''rgba(54, 162, 235, 1)''),
                                              (''backgroundColor'', JStr ''rgba(54, 162, 235, 0.2)''),
                                              (''borderWidth'', JNum 2)]])])
            JUndefined)"
  by (simp add: renderChart_def decode_def unwrap_def adaptData_def casoA_def casoB_def
        casoC_def casoD_def Let_def chartType_def js_or_def)

theorem renderChart_axis_pair_witness:
  "renderChart parseLiteral
     (JObj [(''data'', JObj [(''x'', JArr [JStr ''mon'', JStr ''tue'']),
                             (''y'', JArr [JNum 7, JNum 9])])])
   = Inr (Chart LineChart
            (JObj [(''labels'', JArr [JStr ''mon'', JStr ''tue'']),
                   (''datasets'', JArr [JObj [(''label'', JStr ''Value''),
                                              (''data'', JArr [JNum 7, JNum 9]),
                                              (''borderColor'', JStr ''rgba(54, 162, 235, 1)''),
                                              (''backgroundColor'', JStr ''rgba(54, 162, 235, 0.2)''),
                                              (''borderWidth'', JNum 2)]])])
            JUndefined)"
  using renderChart_axis_pair [of parseLiteral "[JStr ''mon'', JStr ''tue'']" "[JNum 7, JNum 9]"]
  by simp

section \<open>Properties of the series highlighting\<close>

text \<open>
  C9: with a highlighted name, a series of that name gets stroke width 4 and opacity 1,
  every other series gets stroke width 2 and opacity 0.15; with none highlighted every
  series gets stroke width 2 and opacity 1; one line is rendered for each configured
  series, in order, by this styling. A click on the highlighted name clears the
  highlight, a click on any other name highlights that name.
\<close>

theorem lineProps_highlight:
  "(key s = h \<longrightarrow>
      strokeWidth (lineProps (Some h) s) = 4 \<and> strokeOpacity (lineProps (Some h) s) = 1) \<and>
   (key s \<noteq> h \<longrightarrow>
      strokeWidth (lineProps (Some h) s) = 2 \<and>
      strokeOpacity (lineProps (Some h) s) = 15 / 100) \<and>
   strokeWidth (lineProps None s) = 2 \<and> strokeOpacity (lineProps None s) = 1 \<and>
   map dataKey (renderLines highlightedSeries) = map key seriesConfig \<and>
   (\<forall>i < length seriesConfig.
      renderLines highlightedSeries ! i = lineProps highlightedSeries (seriesConfig ! i)) \<and>
   handleLegendClick (Some clicked) clicked = None \<and>
   (highlightedSeries \<noteq> Some clicked \<longrightarrow>
      handleLegendClick highlightedSeries clicked = Some clicked)"
  by (simp add: lineProps_def renderLines_def handleLegendClick_def Let_def)

theorem lineProps_highlight_witness:
  "renderLines (Some ''Wind Forecast'') =
     [\<lparr>dataKey = ''Spot Price'', stroke = ''#3b82f6'', strokeWidth = 2, strokeOpacity = 15 / 100\<rparr>,
      \<lparr>dataKey = ''Consumption Forecast'', stroke = ''#ef4444'', strokeWidth = 2, strokeOpacity = 15 / 100\<rparr>,
      \<lparr>dataKey = ''Solar Panel Forecast'', stroke = ''#f59e0b'', strokeWidth = 2, strokeOpacity = 15 / 100\<rparr>,
      \<lparr>dataKey = ''Wind Forecast'', stroke = ''#10b981'', strokeWidth = 4, strokeOpacity = 1\<rparr>] \<and>
   strokeWidth (lineProps (Some ''Wind Forecast'') \<lparr>key = ''Wind Forecast'', color = ''#10b981''\<rparr>) = 4 \<and>
   strokeOpacity (lineProps (Some ''Wind Forecast'') \<lparr>key = ''Spot Price'', color = ''#3b82f6''\<rparr>) = 15 / 100 \<and>
   handleLegendClick (Some ''Spot Price'') ''Wind Forecast'' = Some ''Wind Forecast'' \<and>
   handleLegendClick (Some ''Wind Forecast'') ''Wind Forecast'' = None"
proof -
  have r: "renderLines (Some ''Wind Forecast'') =
     [\<lparr>dataKey = ''Spot Price'', stroke = ''#3b82f6'', strokeWidth = 2, strokeOpacity = 15 / 100\<rparr>,
      \<lparr>dataKey = ''Consumption Forecast'', stroke = ''#ef4444'', strokeWidth = 2, strokeOpacity = 15 / 100\<rparr>,
      \<lparr>dataKey = ''Solar Panel Forecast'', stroke = ''#f59e0b'', strokeWidth = 2, strokeOpacity = 15 / 100\<rparr>,
      \<lparr>dataKey = ''Wind Forecast'', stroke = ''#10b981'', strokeWidth = 4, strokeOpacity = 1\<rparr>]"
    by (simp add: renderLines_def seriesConfig_def lineProps_def)
  have k1: "key \<lparr>key = ''Wind Forecast'', color = ''#10b981''\<rparr> = ''Wind Forecast''" by simp
  have k2: "key \<lparr>key = ''Spot Price'', color = ''#3b82f6''\<rparr> \<noteq> ''Wind Forecast''" by simp
  have k3: "Some ''Spot Price'' \<noteq> Some ''Wind Forecast''" by simp
  show ?thesis
    using r k1 k2 k3
      lineProps_highlight [of "\<lparr>key = ''Wind Forecast'', color = ''#10b981''\<rparr>" "''Wind Forecast''"
         "Some ''Spot Price''" "''Wind Forecast''"]
      lineProps_highlight [of "\<lparr>key = ''Spot Price'', color = ''#3b82f6''\<rparr>" "''Wind Forecast''"
         "Some ''Spot Price''" "''Wind Forecast''"]
    by simp
qed

end
